theory Spec2Isabelle
  imports
    Main
    "HOL-Library.Char_ord"
    "HOL-Library.List_Lexorder"
    "HOL-Library.Product_Lexorder"
    "HOL-Library.Multiset"
begin

section \<open>emailpie: the email checker of \<open>emailpie/utils.py\<close>\<close>

text \<open>
  The development follows the source file top-down: Python's string helpers used by the
  class, the regular expression of RFC 2822's addr-spec assembled from its tokens, the MX
  lookup against a DNS service, and the class \<open>EmailChecker\<close> with its properties, its
  checks and \<open>validate\<close>.

  Strings are \<open>char list\<close>; the code of a character is \<open>of_char c\<close>. The external
  collaborators (the DNS library, gevent, \<open>emailpie.spelling.correct\<close>,
  \<open>settings.GEVENT_CHECKS\<close>) are parameters of the model.
\<close>

subsection \<open>Python strings: \<open>split\<close>, \<open>join\<close>, \<open>startswith\<close>\<close>

text \<open>
  \<open>s.split(sep)\<close> for a one-character separator: the fields between the occurrences of
  \<open>sep\<close>, in order; the result has one field more than \<open>s\<close> has separators, so it is never
  empty. (The \<open>[]\<close> branch of the \<open>case\<close> is unreachable, see \<open>py_split_not_Nil\<close>.)
\<close>

fun py_split :: "char \<Rightarrow> string \<Rightarrow> string list" where
  "py_split sep [] = [[]]"
| "py_split sep (c # cs) =
     (if c = sep then [] # py_split sep cs
      else (case py_split sep cs of [] \<Rightarrow> [[c]] | w # ws \<Rightarrow> (c # w) # ws))"

text \<open>\<open>sep.join(xs)\<close>.\<close>

fun py_join :: "string \<Rightarrow> string list \<Rightarrow> string" where
  "py_join sep [] = []"
| "py_join sep [x] = x"
| "py_join sep (x # y # ys) = x @ sep @ py_join sep (y # ys)"

text \<open>\<open>name.startswith(p)\<close>.\<close>

definition startswith :: "string \<Rightarrow> string \<Rightarrow> bool" where
  "startswith name p = (take (length p) name = p)"

subsection \<open>The regular expression of addr-spec\<close>

text \<open>
  The source assembles one pattern string from the tokens of RFC 2822 and compiles it. The
  model assembles the same pattern as a syntax tree, one constant per token, with the
  constructs the pattern strings use: a literal character, \<open>.\<close>, a character set \<open>[...]\<close>
  (its items: a character, a range \<open>a-b\<close>, \<open>\w\<close>), concatenation, \<open>|\<close>, \<open>*\<close>, \<open>+\<close>
  and \<open>?\<close>. \<open>Fail\<close> (matches nothing) and \<open>Eps\<close> (matches the empty string) are the
  forms the matcher produces while it consumes the input.
\<close>

datatype citem = Chr char | Rng char char | Word

datatype rexp =
    Fail
  | Eps
  | Lit char
  | Dot
  | Chars "citem list"
  | Cat rexp rexp
  | Alt rexp rexp
  | Star rexp
  | Plus rexp
  | Opt rexp

definition newline :: char where
  "newline = CHR 0x0A"

text \<open>
  Membership in a character set. A range compares character codes. The strings of the
  model are byte strings, as the strings of Python 2 are, for which the source is written
  (a class declared with \<open>(object)\<close>, the modules \<open>DNS\<close> and \<open>gevent\<close>): there
  \<open>\w\<close>, compiled without a flag, is an ASCII letter, a digit or the underscore, and no
  character beyond the 7-bit range. Under Python 3 the pattern accepts the same strings
  of 7-bit characters; its \<open>\w\<close> also accepts letters and digits beyond that range,
  which the model does not cover.
\<close>

fun in_item :: "char \<Rightarrow> citem \<Rightarrow> bool" where
  "in_item c (Chr d) = (c = d)"
| "in_item c (Rng lo hi) = (lo \<le> c \<and> c \<le> hi)"
| "in_item c Word =
     ((CHR ''a'' \<le> c \<and> c \<le> CHR ''z'') \<or> (CHR ''A'' \<le> c \<and> c \<le> CHR ''Z'') \<or>
      (CHR ''0'' \<le> c \<and> c \<le> CHR ''9'') \<or> c = CHR ''_'')"

definition in_class :: "char \<Rightarrow> citem list \<Rightarrow> bool" where
  "in_class c items = list_ex (in_item c) items"

text \<open>
  The strings a pattern matches from its first to its last character. \<open>.\<close> is any
  character but the newline (no \<open>DOTALL\<close> flag).
\<close>

inductive_set star :: "string set \<Rightarrow> string set" for A :: "string set" where
  star_empty: "[] \<in> star A"
| star_more: "u \<in> A \<Longrightarrow> v \<in> star A \<Longrightarrow> u @ v \<in> star A"

definition conc :: "string set \<Rightarrow> string set \<Rightarrow> string set" where
  "conc A B = {u @ v | u v. u \<in> A \<and> v \<in> B}"

fun lang :: "rexp \<Rightarrow> string set" where
  "lang Fail = {}"
| "lang Eps = {[]}"
| "lang (Lit d) = {[d]}"
| "lang Dot = {[c] | c. c \<noteq> newline}"
| "lang (Chars items) = {[c] | c. in_class c items}"
| "lang (Cat a b) = conc (lang a) (lang b)"
| "lang (Alt a b) = lang a \<union> lang b"
| "lang (Star a) = star (lang a)"
| "lang (Plus a) = conc (lang a) (star (lang a))"
| "lang (Opt a) = insert [] (lang a)"

text \<open>
  The executable matcher: \<open>matches r s\<close> consumes \<open>s\<close> one character at a time, keeping the
  pattern of what may follow (\<open>deriv\<close>), and accepts when that pattern matches the empty
  string (\<open>nullable\<close>). \<open>matches_lang\<close> below shows that it decides \<open>lang\<close>. The regular
  expression engine backtracks over every alternative and repetition count, so it finds a
  match exactly when one exists.
\<close>

fun nullable :: "rexp \<Rightarrow> bool" where
  "nullable Fail = False"
| "nullable Eps = True"
| "nullable (Lit d) = False"
| "nullable Dot = False"
| "nullable (Chars items) = False"
| "nullable (Cat a b) = (nullable a \<and> nullable b)"
| "nullable (Alt a b) = (nullable a \<or> nullable b)"
| "nullable (Star a) = True"
| "nullable (Plus a) = nullable a"
| "nullable (Opt a) = True"

definition alt :: "rexp \<Rightarrow> rexp \<Rightarrow> rexp" where
  "alt a b = (case a of Fail \<Rightarrow> b | _ \<Rightarrow> (case b of Fail \<Rightarrow> a | _ \<Rightarrow> Alt a b))"

definition cat :: "rexp \<Rightarrow> rexp \<Rightarrow> rexp" where
  "cat a b =
     (case a of Fail \<Rightarrow> Fail | Eps \<Rightarrow> b | _ \<Rightarrow> (case b of Fail \<Rightarrow> Fail | _ \<Rightarrow> Cat a b))"

fun deriv :: "char \<Rightarrow> rexp \<Rightarrow> rexp" where
  "deriv c Fail = Fail"
| "deriv c Eps = Fail"
| "deriv c (Lit d) = (if c = d then Eps else Fail)"
| "deriv c Dot = (if c \<noteq> newline then Eps else Fail)"
| "deriv c (Chars items) = (if in_class c items then Eps else Fail)"
| "deriv c (Cat a b) =
     (if nullable a then alt (cat (deriv c a) b) (deriv c b) else cat (deriv c a) b)"
| "deriv c (Alt a b) = alt (deriv c a) (deriv c b)"
| "deriv c (Star a) = cat (deriv c a) (Star a)"
| "deriv c (Plus a) = cat (deriv c a) (Star a)"
| "deriv c (Opt a) = deriv c a"

fun matches :: "rexp \<Rightarrow> string \<Rightarrow> bool" where
  "matches r [] = nullable r"
| "matches r (c # cs) = matches (deriv c r) cs"

text \<open>
  \<open>re.match(p, s) is not None\<close> for a compiled pattern \<open>p\<close> of the form \<open>^r$\<close>.
  \<open>re.match\<close> looks for a match that starts at position 0, where \<open>^\<close> holds. Without the
  \<open>MULTILINE\<close> flag, \<open>$\<close> holds at the end of the string and also just before a
  newline that is the last character of the string. So \<open>r\<close> has to match the whole
  string, or the whole string short of a final newline.
\<close>

definition re_match_anchored :: "rexp \<Rightarrow> string \<Rightarrow> bool" where
  "re_match_anchored r s =
     (matches r s \<or> (s \<noteq> [] \<and> last s = newline \<and> matches r (butlast s)))"

text \<open>
  The tokens, in the order of the source. In a pattern string a postfix operator binds to
  the group, set or character before it, and \<open>|\<close> binds weakest inside its group.
\<close>

text \<open>\<open>WSP = r'[ \t]'\<close>\<close>

definition WSP :: rexp where
  "WSP = Chars [Chr (CHR '' ''), Chr (CHR 0x09)]"

text \<open>\<open>CRLF = r'(?:\r\n)'\<close>\<close>

definition CRLF :: rexp where
  "CRLF = Cat (Lit (CHR 0x0D)) (Lit (CHR 0x0A))"

text \<open>\<open>NO_WS_CTL = r'\x01-\x08\x0b\x0c\x0f-\x1f\x7f'\<close>, the items of a set.\<close>

definition NO_WS_CTL :: "citem list" where
  "NO_WS_CTL = [Rng (CHR 0x01) (CHR 0x08), Chr (CHR 0x0B), Chr (CHR 0x0C),
                Rng (CHR 0x0F) (CHR 0x1F), Chr (CHR 0x7F)]"

text \<open>\<open>QUOTED_PAIR = r'(?:\\.)'\<close>: a backslash and any character but the newline.\<close>

definition QUOTED_PAIR :: rexp where
  "QUOTED_PAIR = Cat (Lit (CHR 0x5C)) Dot"

text \<open>\<open>FWS = r'(?:(?:' + WSP + r'*' + CRLF + r')?' + WSP + r'+)'\<close>\<close>

definition FWS :: rexp where
  "FWS = Cat (Opt (Cat (Star WSP) CRLF)) (Plus WSP)"

text \<open>\<open>CTEXT = r'[' + NO_WS_CTL + r'\x21-\x27\x2a-\x5b\x5d-\x7e]'\<close>\<close>

definition CTEXT :: rexp where
  "CTEXT = Chars (NO_WS_CTL @
     [Rng (CHR 0x21) (CHR 0x27), Rng (CHR 0x2A) (CHR 0x5B), Rng (CHR 0x5D) (CHR 0x7E)])"

text \<open>\<open>CCONTENT = r'(?:' + CTEXT + r'|' + QUOTED_PAIR + r')'\<close>\<close>

definition CCONTENT :: rexp where
  "CCONTENT = Alt CTEXT QUOTED_PAIR"

text \<open>\<open>COMMENT = r'\((?:' + FWS + r'?' + CCONTENT + r')*' + FWS + r'?\)'\<close>\<close>

definition COMMENT :: rexp where
  "COMMENT = Cat (Lit (CHR ''(''))
               (Cat (Star (Cat (Opt FWS) CCONTENT))
                 (Cat (Opt FWS) (Lit (CHR '')''))))"

text \<open>
  \<open>CFWS = r'(?:' + FWS + r'?' + COMMENT + ')*(?:' + FWS + '?' + COMMENT + '|' + FWS + ')'\<close>:
  two groups side by side. Every use of the token is \<open>CFWS + r'?'\<close>, where the \<open>?\<close>
  binds to the second group only; that pattern is \<open>CFWS_opt\<close>.
\<close>

definition CFWS_comments :: rexp where
  "CFWS_comments = Star (Cat (Opt FWS) COMMENT)"

definition CFWS_last :: rexp where
  "CFWS_last = Alt (Cat (Opt FWS) COMMENT) FWS"

definition CFWS :: rexp where
  "CFWS = Cat CFWS_comments CFWS_last"

definition CFWS_opt :: rexp where
  "CFWS_opt = Cat CFWS_comments (Opt CFWS_last)"

text \<open>
  \<open>ATEXT = r'[\w!#$%&\'\*\+\-/=\?\^`\{\|\}~]'\<close>; \<open>CHR 0x27\<close> is the apostrophe and
  \<open>CHR 0x60\<close> the backquote.
\<close>

definition ATEXT :: rexp where
  "ATEXT = Chars [Word, Chr (CHR ''!''), Chr (CHR ''#''), Chr (CHR ''$''), Chr (CHR ''%''),
     Chr (CHR ''&''), Chr (CHR 0x27), Chr (CHR ''*''), Chr (CHR ''+''), Chr (CHR ''-''),
     Chr (CHR ''/''), Chr (CHR ''=''), Chr (CHR ''?''), Chr (CHR ''^''), Chr (CHR 0x60),
     Chr (CHR ''{''), Chr (CHR ''|''), Chr (CHR ''}''), Chr (CHR ''~'')]"

text \<open>\<open>ATOM = CFWS + r'?' + ATEXT + r'+' + CFWS + r'?'\<close>\<close>

definition ATOM :: rexp where
  "ATOM = Cat CFWS_opt (Cat (Plus ATEXT) CFWS_opt)"

text \<open>\<open>DOT_ATOM_TEXT = ATEXT + r'+(?:\.' + ATEXT + r'+)*'\<close>\<close>

definition DOT_ATOM_TEXT :: rexp where
  "DOT_ATOM_TEXT = Cat (Plus ATEXT) (Star (Cat (Lit (CHR ''.'')) (Plus ATEXT)))"

text \<open>\<open>DOT_ATOM = CFWS + r'?' + DOT_ATOM_TEXT + CFWS + r'?'\<close>\<close>

definition DOT_ATOM :: rexp where
  "DOT_ATOM = Cat CFWS_opt (Cat DOT_ATOM_TEXT CFWS_opt)"

text \<open>\<open>QTEXT = r'[' + NO_WS_CTL + r'\x21\x23-\x5b\x5d-\x7e]'\<close>\<close>

definition QTEXT :: rexp where
  "QTEXT = Chars (NO_WS_CTL @
     [Chr (CHR 0x21), Rng (CHR 0x23) (CHR 0x5B), Rng (CHR 0x5D) (CHR 0x7E)])"

text \<open>\<open>QCONTENT = r'(?:' + QTEXT + r'|' + QUOTED_PAIR + r')'\<close>\<close>

definition QCONTENT :: rexp where
  "QCONTENT = Alt QTEXT QUOTED_PAIR"

text \<open>
  \<open>QUOTED_STRING\<close>: \<open>CFWS?\<close>, a double quote, \<open>(?:FWS?QCONTENT)*\<close>, \<open>FWS?\<close>, a double
  quote, \<open>CFWS?\<close>, concatenated in this order; \<open>CHR 0x22\<close> is the double quote.
\<close>

definition QUOTED_STRING :: rexp where
  "QUOTED_STRING = Cat CFWS_opt
     (Cat (Lit (CHR 0x22))
       (Cat (Star (Cat (Opt FWS) QCONTENT))
         (Cat (Opt FWS) (Cat (Lit (CHR 0x22)) CFWS_opt))))"

text \<open>\<open>LOCAL_PART = r'(?:' + DOT_ATOM + r'|' + QUOTED_STRING + r')'\<close>\<close>

definition LOCAL_PART :: rexp where
  "LOCAL_PART = Alt DOT_ATOM QUOTED_STRING"

text \<open>\<open>DTEXT = r'[' + NO_WS_CTL + r'\x21-\x5a\x5e-\x7e]'\<close>\<close>

definition DTEXT :: rexp where
  "DTEXT = Chars (NO_WS_CTL @ [Rng (CHR 0x21) (CHR 0x5A), Rng (CHR 0x5E) (CHR 0x7E)])"

text \<open>\<open>DCONTENT = r'(?:' + DTEXT + r'|' + QUOTED_PAIR + r')'\<close>\<close>

definition DCONTENT :: rexp where
  "DCONTENT = Alt DTEXT QUOTED_PAIR"

text \<open>
  \<open>DOMAIN_LITERAL = CFWS + r'?' + r'\[' + r'(?:' + FWS + r'?' + DCONTENT + r')*' + FWS + r'?\]' + CFWS + r'?'\<close>
\<close>

definition DOMAIN_LITERAL :: rexp where
  "DOMAIN_LITERAL = Cat CFWS_opt
     (Cat (Lit (CHR ''[''))
       (Cat (Star (Cat (Opt FWS) DCONTENT))
         (Cat (Opt FWS) (Cat (Lit (CHR '']'')) CFWS_opt))))"

text \<open>\<open>DOMAIN = r'(?:' + DOT_ATOM + r'|' + DOMAIN_LITERAL + r')'\<close>\<close>

definition DOMAIN :: rexp where
  "DOMAIN = Alt DOT_ATOM DOMAIN_LITERAL"

text \<open>\<open>ADDR_SPEC = LOCAL_PART + r'@' + DOMAIN\<close>\<close>

definition ADDR_SPEC :: rexp where
  "ADDR_SPEC = Cat LOCAL_PART (Cat (Lit (CHR ''@'')) DOMAIN)"

text \<open>
  \<open>VALID_ADDRESS_REGEXP = re.compile(r'^' + ADDR_SPEC + r'$')\<close>: the pattern between the
  two anchors; \<open>re_match_anchored\<close> accounts for the anchors.
\<close>

definition VALID_ADDRESS_REGEXP :: rexp where
  "VALID_ADDRESS_REGEXP = ADDR_SPEC"

subsection \<open>The MX lookup\<close>

text \<open>
  The DNS library is an external collaborator. What the source reads of a request's result:
  \<open>result.header['status']\<close>, \<open>result.header['rcode']\<close> and, of each element of
  \<open>result.answers\<close>, the entry \<open>'data'\<close>, which for an MX query is the pair
  (preference, mail exchanger).
\<close>

text \<open>The payload of an MX answer.\<close>

type_synonym mx = "int \<times> string"

record header =
  status :: string
  rcode :: int

record answer =
  data :: mx

record dns_result =
  header :: header
  answers :: "answer list"

text \<open>
  The state of the DNS module and of the network behind it: the configured name servers
  \<open>Base.defaults['server']\<close>, the flag \<open>Base.defaults['server_rotate']\<close>, the servers
  that \<open>DiscoverNameServers\<close> would find, the result that the \<open>n\<close>-th request sent would
  get for a name and a query type, and the number of requests sent so far.
\<close>

record dns =
  server :: "string list"
  server_rotate :: bool
  discoverable :: "string list"
  reply :: "nat \<Rightarrow> string \<Rightarrow> string \<Rightarrow> dns_result"
  requests :: nat

definition DiscoverNameServers :: "dns \<Rightarrow> dns" where
  "DiscoverNameServers w = w\<lparr>server := discoverable w\<rparr>"

text \<open>
  \<open>Base.DnsRequest(name=name, qtype=qtype, timout=5).req()\<close>: one request is sent and its
  result returned. A failure of the transport itself (an exception of the library other
  than the \<open>ServerError\<close> that the source raises) is outside the model.
\<close>

definition req :: "string \<Rightarrow> string \<Rightarrow> dns \<Rightarrow> dns_result \<times> dns" where
  "req name qtype w = (reply w (requests w) name qtype, w\<lparr>requests := Suc (requests w)\<rparr>)"

text \<open>\<open>ServerError(message, rcode)\<close>, the exception that \<open>dnslookup\<close> raises.\<close>

datatype exn = ServerError string int

text \<open>
  \<open>dnslookup(name, qtype)\<close>. After the first request: a status other than \<open>NOERROR\<close>
  raises; otherwise (\<open>elif\<close>) an empty answer list with rotation enabled sends the request
  once more and its result replaces the first. Then the status of the current result is
  tested (again), and the \<open>'data'\<close> of the answers returned.
\<close>

definition dnslookup :: "string \<Rightarrow> string \<Rightarrow> dns \<Rightarrow> (exn + mx list) \<times> dns" where
  "dnslookup name qtype w0 =
     (let w1 = (if server w0 = [] then DiscoverNameServers w0 else w0);
          (result, w2) = req name qtype w1
      in if status (header result) \<noteq> ''NOERROR'' then
           (Inl (ServerError (''DNS query status: '' @ status (header result))
                   (rcode (header result))), w2)
         else
           (let (result', w3) =
                  (if length (answers result) = 0 \<and> server_rotate w2
                   then req name qtype w2 else (result, w2))
            in if status (header result') \<noteq> ''NOERROR'' then
                 (Inl (ServerError (''DNS query status: '' @ status (header result'))
                         (rcode (header result'))), w3)
               else (Inr (map data (answers result')), w3)))"

text \<open>
  \<open>_mxlookup(name)\<close>: the lookup with \<open>qtype='mx'\<close>, then \<open>l.sort()\<close>. Python compares the
  pairs by preference first, then by the exchanger strings character by character, a
  proper prefix being smaller: the order of \<open>int \<times> string\<close>. \<open>mxlookup(domain)\<close> returns
  \<open>_mxlookup(domain)\<close>.
\<close>

definition mxlookup' :: "string \<Rightarrow> dns \<Rightarrow> (exn + mx list) \<times> dns" where
  "mxlookup' name w =
     (case dnslookup name ''mx'' w of
        (Inl e, w') \<Rightarrow> (Inl e, w')
      | (Inr l, w') \<Rightarrow> (Inr (sort l), w'))"

definition mxlookup :: "string \<Rightarrow> dns \<Rightarrow> (exn + mx list) \<times> dns" where
  "mxlookup domain_name w = mxlookup' domain_name w"

subsection \<open>The class \<open>EmailChecker\<close>\<close>

text \<open>An error is a dictionary with the keys \<open>severity\<close> and \<open>message\<close>.\<close>

record error =
  severity :: int
  message :: string

text \<open>
  The attributes that \<open>__init__\<close> sets on an \<open>EmailChecker\<close>; \<open>mx_records\<close> is \<open>None\<close> or
  a list, \<open>use_gevent\<close> is the attribute \<open>_gevent\<close>.
\<close>

record EmailChecker =
  email :: string
  errors :: "error list"
  mx_records :: "mx list option"
  use_gevent :: bool

text \<open>
  \<open>__init__(self, email, _gevent=settings.GEVENT_CHECKS)\<close>; the default of the second
  argument is not part of the file, so the flag is always passed.
\<close>

definition init :: "string \<Rightarrow> bool \<Rightarrow> EmailChecker" where
  "init e g = \<lparr>email = e, errors = [], mx_records = None, use_gevent = g\<rparr>"

text \<open>
  The property \<open>username\<close>: \<open>self.email.split('@')[0]\<close>. The split is never empty, so index
  0 exists and \<open>hd\<close> reads it.
\<close>

definition username :: "EmailChecker \<Rightarrow> string" where
  "username s = hd (py_split (CHR ''@'') (email s))"

text \<open>
  The property \<open>domain\<close>: \<open>self.email.split('@')[1]\<close>, and \<open>None\<close> when index 1 does not
  exist (the \<open>IndexError\<close> is caught).
\<close>

definition domain :: "EmailChecker \<Rightarrow> string option" where
  "domain s = (case py_split (CHR ''@'') (email s) of
                 _ # d # _ \<Rightarrow> Some d
               | _ \<Rightarrow> None)"

text \<open>
  Truth value of \<open>self.domain\<close> in a condition: \<open>None\<close> and the empty string are false.
\<close>

fun truthy :: "string option \<Rightarrow> bool" where
  "truthy None = False"
| "truthy (Some d) = (d \<noteq> [])"

text \<open>
  \<open>didyoumean\<close>, with \<open>emailpie.spelling.correct\<close> as the parameter \<open>correct\<close>.
  The format string puts the username, an \<open>@\<close> and the joined labels one after the
  other.
\<close>

definition didyoumean :: "(string \<Rightarrow> string) \<Rightarrow> EmailChecker \<Rightarrow> string option" where
  "didyoumean correct s =
     (if truthy (domain s) then
        (case domain s of
           Some d \<Rightarrow>
             (let items = py_split (CHR ''.'') d;
                  suggestion = username s @ ''@'' @ py_join ''.'' (map correct items)
              in if suggestion = email s then None else Some suggestion)
         | None \<Rightarrow> None)
      else None)"

subsection \<open>The checks\<close>

text \<open>\<open>check_valid_email_string\<close>\<close>

definition check_valid_email_string :: "EmailChecker \<Rightarrow> error list" where
  "check_valid_email_string s =
     (if re_match_anchored VALID_ADDRESS_REGEXP (email s) then []
      else [\<lparr>severity = 10, message = ''Invalid email address.''\<rparr>])"

text \<open>
  \<open>check_valid_mx_records\<close>: the check returns its errors, the checker (whose
  \<open>mx_records\<close> it may have assigned) and the DNS state. \<open>not self.domain\<close> holds for
  \<open>None\<close> and for the empty string. The assignment to \<open>self.mx_records\<close> happens as soon
  as \<open>mxlookup\<close> has returned, before the length is tested; when \<open>mxlookup\<close> raises
  \<open>ServerError\<close> nothing is assigned.
\<close>

definition no_mx_error :: error where
  "no_mx_error = \<lparr>severity = 7, message = ''No MX records found for the domain.''\<rparr>"

definition check_valid_mx_records :: "EmailChecker \<Rightarrow> dns \<Rightarrow> error list \<times> EmailChecker \<times> dns" where
  "check_valid_mx_records s w =
     (let error = no_mx_error
      in if \<not> truthy (domain s) then ([error], s, w)
         else
           (case domain s of
              None \<Rightarrow> ([error], s, w)
            | Some d \<Rightarrow>
                (case mxlookup d w of
                   (Inr l, w') \<Rightarrow>
                     (let s' = s\<lparr>mx_records := Some l\<rparr>
                      in if length l = 0 then ([error], s', w') else ([], s', w'))
                 | (Inl (ServerError m c), w') \<Rightarrow> ([error], s, w'))))"

text \<open>\<open>check_nothing\<close>\<close>

definition check_nothing :: "EmailChecker \<Rightarrow> error list" where
  "check_nothing s = []"

subsection \<open>Discovery of the checks\<close>

text \<open>
  A check as \<open>validate\<close> calls it: a bound method without arguments, which may read and
  write the checker and use the DNS service.
\<close>

type_synonym check = "EmailChecker \<Rightarrow> dns \<Rightarrow> error list \<times> EmailChecker \<times> dns"

text \<open>
  The names that the class body and \<open>__init__\<close> define, in the order of the source.
  \<open>dir(self)\<close> returns the attribute names sorted; the names inherited from \<open>object\<close>
  all start with two underscores and are left out.
\<close>

definition attribute_names :: "string list" where
  "attribute_names =
     [''__init__'', ''email'', ''errors'', ''mx_records'', ''_gevent'', ''username'', ''domain'',
      ''didyoumean'', ''checks'', ''validate'', ''check_valid_email_string'',
      ''check_valid_mx_records'', ''check_nothing'']"

definition dir :: "string list" where
  "dir = sort attribute_names"

text \<open>\<open>getattr(self, name)\<close> for the names of the checks; \<open>None\<close> for any other name.\<close>

definition getattr :: "string \<Rightarrow> check option" where
  "getattr name =
     (if name = ''check_valid_email_string'' then Some (\<lambda>s w. (check_valid_email_string s, s, w))
      else if name = ''check_valid_mx_records'' then Some check_valid_mx_records
      else if name = ''check_nothing'' then Some (\<lambda>s w. (check_nothing s, s, w))
      else None)"

text \<open>
  The property \<open>checks\<close>: for every name of \<open>dir(self)\<close> that starts with \<open>check_\<close>, in
  that order, the attribute of that name.
\<close>

definition check_names :: "string list" where
  "check_names = filter (\<lambda>name. startswith name ''check_'') dir"

definition checks :: "check list" where
  "checks = List.map_filter getattr check_names"

subsection \<open>\<open>validate\<close>\<close>

text \<open>\<open>[check() for check in self.checks]\<close>: the checks run one after the other.\<close>

fun run_checks :: "check list \<Rightarrow> EmailChecker \<Rightarrow> dns \<Rightarrow> error list list \<times> EmailChecker \<times> dns" where
  "run_checks [] s w = ([], s, w)"
| "run_checks (c # cs) s w =
     (case c s w of (r, s1, w1) \<Rightarrow>
        (case run_checks cs s1 w1 of (rs, s2, w2) \<Rightarrow> (r # rs, s2, w2)))"

text \<open>\<open>for result in results: self.errors += result\<close>\<close>

fun extend_errors :: "error list list \<Rightarrow> EmailChecker \<Rightarrow> EmailChecker" where
  "extend_errors [] s = s"
| "extend_errors (r # rs) s = extend_errors rs (s\<lparr>errors := errors s @ r\<rparr>)"

text \<open>
  \<open>results = [gevent.spawn(check) for check in self.checks]\<close> followed by
  \<open>gevent.joinall(results, timeout=7)\<close>. Greenlets are scheduled cooperatively: a check
  runs until it waits for the network, so a check that sends no DNS request has finished
  when \<open>joinall\<close> returns. A check that does wait for the network has finished or not,
  depending on whether the replies arrived before the timeout: this is the parameter
  \<open>in_time\<close>. The \<open>value\<close> of a finished greenlet is the list the check returned; the
  \<open>value\<close> of an unfinished one is \<open>None\<close>, and it has not yet written to the checker.
  An unfinished check is still waiting for the reply to its first request when
  \<open>joinall\<close> returns: \<open>dnslookup\<close> has discovered the name servers where none was
  configured and has sent one request (\<open>awaiting_reply\<close>).
\<close>

definition awaiting_reply :: "dns \<Rightarrow> dns" where
  "awaiting_reply w =
     (if server w = [] then DiscoverNameServers w else w)\<lparr>requests := Suc (requests w)\<rparr>"

fun spawn_joinall ::
  "bool \<Rightarrow> check list \<Rightarrow> EmailChecker \<Rightarrow> dns \<Rightarrow> error list option list \<times> EmailChecker \<times> dns" where
  "spawn_joinall in_time [] s w = ([], s, w)"
| "spawn_joinall in_time (c # cs) s w =
     (case c s w of (r, s1, w1) \<Rightarrow>
        (if requests w1 = requests w \<or> in_time then
           (case spawn_joinall in_time cs s1 w1 of (vs, s2, w2) \<Rightarrow> (Some r # vs, s2, w2))
         else
           (case spawn_joinall in_time cs s (awaiting_reply w) of
              (vs, s2, w2) \<Rightarrow> (None # vs, s2, w2))))"

text \<open>
  \<open>for result in results: if result.value: self.errors += result.value\<close>; \<open>None\<close> and
  the empty list are false.
\<close>

fun extend_values :: "error list option list \<Rightarrow> EmailChecker \<Rightarrow> EmailChecker" where
  "extend_values [] s = s"
| "extend_values (v # vs) s =
     extend_values vs
       (case v of
          None \<Rightarrow> s
        | Some r \<Rightarrow> (if r \<noteq> [] then s\<lparr>errors := errors s @ r\<rparr> else s))"

text \<open>
  \<open>validate\<close> returns \<open>self.errors\<close>, the list object that it has extended in place; the
  model returns its contents at the return, the checker and the DNS state.
\<close>

definition validate :: "bool \<Rightarrow> EmailChecker \<Rightarrow> dns \<Rightarrow> error list \<times> EmailChecker \<times> dns" where
  "validate in_time s w =
     (if use_gevent s then
        (case spawn_joinall in_time checks s w of
           (results, s1, w1) \<Rightarrow>
             (let s2 = extend_values results s1 in (errors s2, s2, w1)))
      else
        (case run_checks checks s w of
           (results, s1, w1) \<Rightarrow>
             (let s2 = extend_errors results s1 in (errors s2, s2, w1))))"

text \<open>
  A second call of \<open>validate\<close> on the checker that a first call has left, the resolver
  answering the second call as it answered the first (the same \<open>w\<close>, as with a mocked
  resolver) and the network being as fast.
\<close>

definition validate_again :: "bool \<Rightarrow> EmailChecker \<Rightarrow> dns \<Rightarrow> error list \<times> EmailChecker \<times> dns" where
  "validate_again in_time s w = validate in_time (fst (snd (validate in_time s w))) w"

subsection \<open>Example inputs\<close>

text \<open>
  A resolver that always answers with the status \<open>NOERROR\<close> and the given records, one that
  always answers with the status \<open>NXDOMAIN\<close>, and one whose first answer for a domain is
  empty and whose later answers hold two records out of order.
\<close>

definition answering :: "mx list \<Rightarrow> dns" where
  "answering rs =
     \<lparr>server = [''192.0.2.53''], server_rotate = True, discoverable = [],
      reply = (\<lambda>n name qtype.
         \<lparr>header = \<lparr>status = ''NOERROR'', rcode = 0\<rparr>, answers = map (\<lambda>r. \<lparr>data = r\<rparr>) rs\<rparr>),
      requests = 0\<rparr>"

definition failing :: dns where
  "failing =
     \<lparr>server = [''192.0.2.53''], server_rotate = True, discoverable = [],
      reply = (\<lambda>n name qtype. \<lparr>header = \<lparr>status = ''NXDOMAIN'', rcode = 3\<rparr>, answers = []\<rparr>),
      requests = 0\<rparr>"

definition rotating :: dns where
  "rotating =
     \<lparr>server = [], server_rotate = True, discoverable = [''192.0.2.53'', ''192.0.2.54''],
      reply = (\<lambda>n name qtype.
         \<lparr>header = \<lparr>status = ''NOERROR'', rcode = 0\<rparr>,
          answers = (if n = 0 then []
                     else [\<lparr>data = (20, ''mx2.example.com'')\<rparr>, \<lparr>data = (10, ''mx1.example.com'')\<rparr>])\<rparr>),
      requests = 0\<rparr>"

section \<open>Facts\<close>

subsection \<open>Facts about the string helpers\<close>

lemma py_split_not_Nil: "py_split sep s \<noteq> []"
  by (induction s) (auto split: list.splits)

lemma hd_py_split: "hd (py_split sep s) = takeWhile (\<lambda>c. c \<noteq> sep) s"
  by (induction s) (auto split: list.splits simp: py_split_not_Nil)

lemma tl_py_split:
  "tl (py_split sep s) =
     (if sep \<in> set s then py_split sep (tl (dropWhile (\<lambda>c. c \<noteq> sep) s)) else [])"
  by (induction s) (auto split: list.splits simp: py_split_not_Nil)

lemma py_split_single: "sep \<notin> set s \<Longrightarrow> py_split sep s = [s]"
  by (induction s) auto

lemma py_join_split: "py_join [sep] (py_split sep s) = s"
proof (induction s)
  case Nil
  show ?case by simp
next
  case (Cons c cs)
  obtain w ws where sp: "py_split sep cs = w # ws"
    using py_split_not_Nil [of sep cs] by (cases "py_split sep cs") auto
  with Cons show ?case
    by (cases ws) auto
qed

subsection \<open>The matcher decides the language of a pattern\<close>

lemma conc_iff: "w \<in> conc A B \<longleftrightarrow> (\<exists>u v. w = u @ v \<and> u \<in> A \<and> v \<in> B)"
  by (auto simp: conc_def)

lemma Nil_in_conc: "[] \<in> conc A B \<longleftrightarrow> [] \<in> A \<and> [] \<in> B"
  by (auto simp: conc_iff)

lemma nullable_lang: "nullable r \<longleftrightarrow> [] \<in> lang r"
  by (induction r) (auto simp: Nil_in_conc star_empty)

lemma lang_alt: "lang (alt a b) = lang a \<union> lang b"
  by (auto simp: alt_def split: rexp.splits)

lemma lang_cat: "lang (cat a b) = conc (lang a) (lang b)"
  by (auto simp: cat_def conc_iff split: rexp.splits)

lemma Cons_in_conc:
  "c # w \<in> conc A B \<longleftrightarrow> w \<in> conc {u. c # u \<in> A} B \<or> ([] \<in> A \<and> c # w \<in> B)"
proof
  assume "c # w \<in> conc A B"
  then obtain u v where uv: "c # w = u @ v" "u \<in> A" "v \<in> B"
    by (auto simp: conc_iff)
  show "w \<in> conc {u. c # u \<in> A} B \<or> ([] \<in> A \<and> c # w \<in> B)"
  proof (cases u)
    case Nil
    with uv show ?thesis by simp
  next
    case (Cons d u')
    with uv have "w = u' @ v" "c # u' \<in> A" by auto
    with uv(3) show ?thesis unfolding conc_iff by blast
  qed
next
  assume "w \<in> conc {u. c # u \<in> A} B \<or> ([] \<in> A \<and> c # w \<in> B)"
  then show "c # w \<in> conc A B"
  proof
    assume "w \<in> conc {u. c # u \<in> A} B"
    then obtain u v where "w = u @ v" "c # u \<in> A" "v \<in> B"
      by (auto simp: conc_iff)
    then have "c # w = (c # u) @ v" by simp
    with \<open>c # u \<in> A\<close> \<open>v \<in> B\<close> show ?thesis unfolding conc_iff by blast
  next
    assume "[] \<in> A \<and> c # w \<in> B"
    then have "c # w = [] @ (c # w)" "[] \<in> A" "c # w \<in> B" by auto
    then show ?thesis unfolding conc_iff by blast
  qed
qed

lemma star_Cons_split:
  assumes "x \<in> star A" and "x = c # w"
  shows "w \<in> conc {u. c # u \<in> A} (star A)"
  using assms
proof (induction arbitrary: w rule: star.induct)
  case star_empty
  then show ?case by simp
next
  case (star_more u v)
  show ?case
  proof (cases u)
    case Nil
    with star_more show ?thesis by simp
  next
    case (Cons d u')
    with star_more.prems have "w = u' @ v" "d = c" by auto
    with star_more.hyps Cons show ?thesis unfolding conc_iff by blast
  qed
qed

lemma Cons_in_star: "c # w \<in> star A \<longleftrightarrow> w \<in> conc {u. c # u \<in> A} (star A)"
proof
  assume "c # w \<in> star A"
  then show "w \<in> conc {u. c # u \<in> A} (star A)"
    by (rule star_Cons_split) simp
next
  assume "w \<in> conc {u. c # u \<in> A} (star A)"
  then obtain u v where "w = u @ v" "c # u \<in> A" "v \<in> star A"
    by (auto simp: conc_iff)
  then show "c # w \<in> star A"
    using star_more [of "c # u" A v] by simp
qed

lemma lang_deriv: "lang (deriv c r) = {w. c # w \<in> lang r}"
proof (induction r)
  case (Cat a b)
  then show ?case
    by (auto simp: lang_alt lang_cat Cons_in_conc nullable_lang)
next
  case (Star a)
  then show ?case
    by (simp add: lang_cat Cons_in_star)
next
  case (Plus a)
  then show ?case
    by (auto simp: lang_cat Cons_in_conc Cons_in_star)
qed (auto simp: lang_alt)

lemma matches_lang: "matches r s \<longleftrightarrow> s \<in> lang r"
  by (induction s arbitrary: r) (simp_all add: nullable_lang lang_deriv)

subsection \<open>The lookup, the checks and \<open>validate\<close> in closed form\<close>

lemma dnslookup_eq:
  "dnslookup name qtype w =
     (let r1 = reply w (requests w) name qtype;
          r2 = reply w (Suc (requests w)) name qtype;
          w1 = (if server w = [] then DiscoverNameServers w else w)
      in if status (header r1) \<noteq> ''NOERROR'' then
           (Inl (ServerError (''DNS query status: '' @ status (header r1)) (rcode (header r1))),
            w1\<lparr>requests := Suc (requests w)\<rparr>)
         else if answers r1 = [] \<and> server_rotate w then
           (if status (header r2) \<noteq> ''NOERROR'' then
              Inl (ServerError (''DNS query status: '' @ status (header r2)) (rcode (header r2)))
            else Inr (map data (answers r2)),
            w1\<lparr>requests := Suc (Suc (requests w))\<rparr>)
         else (Inr (map data (answers r1)), w1\<lparr>requests := Suc (requests w)\<rparr>))"
  by (simp add: dnslookup_def req_def DiscoverNameServers_def Let_def)

lemma mxlookup_eq:
  "mxlookup name w =
     (case dnslookup name ''mx'' w of (Inl e, w') \<Rightarrow> (Inl e, w') | (Inr l, w') \<Rightarrow> (Inr (sort l), w'))"
  by (simp add: mxlookup_def mxlookup'_def)

lemma requests_mxlookup: "requests w < requests (snd (mxlookup name w))"
  by (simp add: mxlookup_eq dnslookup_eq Let_def)

lemma check_names_eq:
  "check_names = [''check_nothing'', ''check_valid_email_string'', ''check_valid_mx_records'']"
  by code_simp

lemma checks_eq:
  "checks = [(\<lambda>s w. (check_nothing s, s, w)), (\<lambda>s w. (check_valid_email_string s, s, w)),
             check_valid_mx_records]"
  by (simp add: checks_def check_names_eq List.map_filter_def getattr_def)

lemma check_valid_mx_records_eq:
  "check_valid_mx_records s w =
     (case domain s of
        None \<Rightarrow> ([no_mx_error], s, w)
      | Some d \<Rightarrow>
          if d = [] then ([no_mx_error], s, w)
          else (case mxlookup d w of
                  (Inl e, w') \<Rightarrow> ([no_mx_error], s, w')
                | (Inr l, w') \<Rightarrow> (if l = [] then [no_mx_error] else [], s\<lparr>mx_records := Some l\<rparr>, w')))"
  by (auto simp: check_valid_mx_records_def Let_def split: option.splits prod.splits sum.splits exn.splits)

lemma check_valid_mx_records_frame:
  "email (fst (snd (check_valid_mx_records s w))) = email s"
  "errors (fst (snd (check_valid_mx_records s w))) = errors s"
  "use_gevent (fst (snd (check_valid_mx_records s w))) = use_gevent s"
  by (auto simp: check_valid_mx_records_eq split: option.splits prod.splits sum.splits)

lemma check_valid_mx_records_state:
  "fst (snd (check_valid_mx_records s w)) = s\<lparr>mx_records := mx_records (fst (snd (check_valid_mx_records s w)))\<rparr>"
  by (auto simp: check_valid_mx_records_eq split: option.splits prod.splits sum.splits)

lemma validate_eq:
  "validate j s w =
     (case check_valid_mx_records s w of
        (r, s1, w1) \<Rightarrow>
          if use_gevent s \<and> requests w1 \<noteq> requests w \<and> \<not> j
          then (errors s @ check_valid_email_string s,
                s\<lparr>errors := errors s @ check_valid_email_string s\<rparr>, awaiting_reply w)
          else (errors s @ check_valid_email_string s @ r,
                s1\<lparr>errors := errors s @ check_valid_email_string s @ r\<rparr>, w1))"
proof -
  obtain r s1 w1 where c: "check_valid_mx_records s w = (r, s1, w1)"
    by (cases "check_valid_mx_records s w") auto
  have e: "errors s1 = errors s"
    using check_valid_mx_records_frame(2) [of s w] c by simp
  show ?thesis
    by (simp add: validate_def checks_eq c e check_nothing_def)
qed


subsection \<open>What the syntax check accepts\<close>

lemma re_match_anchored_lang:
  "re_match_anchored r s \<longleftrightarrow> s \<in> lang r \<or> (\<exists>t. s = t @ [newline] \<and> t \<in> lang r)"
proof -
  have "(s \<noteq> [] \<and> last s = newline \<and> butlast s \<in> lang r) \<longleftrightarrow>
        (\<exists>t. s = t @ [newline] \<and> t \<in> lang r)"
  proof
    assume h: "s \<noteq> [] \<and> last s = newline \<and> butlast s \<in> lang r"
    then have "s = butlast s @ [newline]" using append_butlast_last_id [of s] by simp
    with h show "\<exists>t. s = t @ [newline] \<and> t \<in> lang r" by blast
  next
    assume "\<exists>t. s = t @ [newline] \<and> t \<in> lang r"
    then show "s \<noteq> [] \<and> last s = newline \<and> butlast s \<in> lang r" by auto
  qed
  then show ?thesis by (simp add: re_match_anchored_def matches_lang)
qed

lemma ADDR_SPEC_has_at: "s \<in> lang ADDR_SPEC \<Longrightarrow> CHR ''@'' \<in> set s"
  by (auto simp: ADDR_SPEC_def conc_iff)

lemma valid_has_at: "re_match_anchored VALID_ADDRESS_REGEXP s \<Longrightarrow> CHR ''@'' \<in> set s"
  by (auto simp: re_match_anchored_lang VALID_ADDRESS_REGEXP_def dest: ADDR_SPEC_has_at)

lemma check_valid_email_string_cases:
  "check_valid_email_string s = [] \<or>
   check_valid_email_string s = [\<lparr>severity = 10, message = ''Invalid email address.''\<rparr>]"
  by (simp add: check_valid_email_string_def)

lemma check_valid_email_string_no_at:
  "CHR ''@'' \<notin> set (email s) \<Longrightarrow>
   check_valid_email_string s = [\<lparr>severity = 10, message = ''Invalid email address.''\<rparr>]"
  using valid_has_at [of "email s"] by (auto simp: check_valid_email_string_def)

lemma fst_check_valid_mx_records_cases:
  "fst (check_valid_mx_records s w) = [] \<or> fst (check_valid_mx_records s w) = [no_mx_error]"
  by (auto simp: check_valid_mx_records_eq split: option.splits prod.splits sum.splits)

subsection \<open>The fields of the email\<close>

lemma py_split_Cons: "py_split sep s = hd (py_split sep s) # tl (py_split sep s)"
  using py_split_not_Nil [of sep s] by simp

lemma py_split_fields: "f \<in> set (py_split sep s) \<Longrightarrow> sep \<notin> set f"
  by (induction s arbitrary: f) (auto split: if_splits list.splits)

lemma length_py_split: "length (py_split sep s) = Suc (count_list s sep)"
  by (induction s) (auto split: list.splits simp: py_split_not_Nil)

lemma username_eq: "username s = takeWhile (\<lambda>c. c \<noteq> CHR ''@'') (email s)"
  by (simp add: username_def hd_py_split)

lemma domain_eq:
  "domain s =
     (if CHR ''@'' \<in> set (email s)
      then Some (takeWhile (\<lambda>c. c \<noteq> CHR ''@'') (tl (dropWhile (\<lambda>c. c \<noteq> CHR ''@'') (email s))))
      else None)"
proof -
  let ?sp = "py_split (CHR ''@'') (email s)"
  let ?rest = "tl (dropWhile (\<lambda>c. c \<noteq> CHR ''@'') (email s))"
  have sp: "?sp = hd ?sp # tl ?sp" by (rule py_split_Cons)
  show ?thesis
  proof (cases "CHR ''@'' \<in> set (email s)")
    case True
    then have "tl ?sp = py_split (CHR ''@'') ?rest" by (simp add: tl_py_split)
    also have "\<dots> = hd (py_split (CHR ''@'') ?rest) # tl (py_split (CHR ''@'') ?rest)"
      by (rule py_split_Cons)
    finally have "tl ?sp = takeWhile (\<lambda>c. c \<noteq> CHR ''@'') ?rest # tl (py_split (CHR ''@'') ?rest)"
      by (simp add: hd_py_split)
    with sp obtain x ys where "?sp = x # takeWhile (\<lambda>c. c \<noteq> CHR ''@'') ?rest # ys"
      by metis
    then have "domain s = Some (takeWhile (\<lambda>c. c \<noteq> CHR ''@'') ?rest)"
      unfolding domain_def by simp
    with True show ?thesis by simp
  next
    case False
    then have "?sp = [email s]" by (rule py_split_single)
    with False show ?thesis by (simp add: domain_def)
  qed
qed

lemma first_at:
  assumes "e = u @ CHR ''@'' # v" and "CHR ''@'' \<notin> set u"
  shows "takeWhile (\<lambda>c. c \<noteq> CHR ''@'') e = u" and "tl (dropWhile (\<lambda>c. c \<noteq> CHR ''@'') e) = v"
  using assms by (induction u arbitrary: e) auto

subsection \<open>Values at the example inputs\<close>

lemma init_fields:
  "email (init e g) = e" "errors (init e g) = []" "mx_records (init e g) = None"
  "use_gevent (init e g) = g"
  by (simp_all add: init_def)

lemma mxlookup_answering:
  "fst (mxlookup name (answering [(10, ''mx1.example.com'')])) = Inr [(10, ''mx1.example.com'')]"
  by (simp add: mxlookup_eq dnslookup_eq answering_def Let_def)

lemma mxlookup_failing:
  "fst (mxlookup name failing) = Inl (ServerError ''DNS query status: NXDOMAIN'' 3)"
  by (simp add: mxlookup_eq dnslookup_eq failing_def Let_def)

lemma mxlookup_answering_Nil: "fst (mxlookup name (answering [])) = Inr []"
  by (simp add: mxlookup_eq dnslookup_eq answering_def Let_def)

lemma domain_examples:
  "domain (init ''user@example.com'' g) = Some ''example.com''"
  "domain (init ''user@'' g) = Some []"
  "domain (init ''not-an-email'' g) = None"
  by (simp_all add: domain_def init_def)

subsection \<open>What \<open>validate\<close> returns and leaves behind\<close>

lemma validate_state:
  "fst (snd (validate j s w)) =
     (if use_gevent s \<and> requests (snd (snd (check_valid_mx_records s w))) \<noteq> requests w \<and> \<not> j
      then s else fst (snd (check_valid_mx_records s w)))
     \<lparr>errors := fst (validate j s w)\<rparr>"
  by (simp add: validate_eq split: prod.splits)

lemma validate_result:
  "fst (validate j s w) =
     errors s @ check_valid_email_string s @
     (if use_gevent s \<and> requests (snd (snd (check_valid_mx_records s w))) \<noteq> requests w \<and> \<not> j
      then [] else fst (check_valid_mx_records s w))"
  by (simp add: validate_eq split: prod.splits)

lemma validate_frame:
  "email (fst (snd (validate j s w))) = email s"
  "use_gevent (fst (snd (validate j s w))) = use_gevent s"
  "errors (fst (snd (validate j s w))) = fst (validate j s w)"
  using check_valid_mx_records_frame [of s w]
  by (simp_all add: validate_state)

lemma domain_cong: "email s' = email s \<Longrightarrow> domain s' = domain s"
  by (simp add: domain_def)

lemma check_valid_email_string_cong:
  "email s' = email s \<Longrightarrow> check_valid_email_string s' = check_valid_email_string s"
  by (simp add: check_valid_email_string_def)

lemma check_valid_mx_records_cong:
  "email s' = email s \<Longrightarrow>
   fst (check_valid_mx_records s' w) = fst (check_valid_mx_records s w) \<and>
   snd (snd (check_valid_mx_records s' w)) = snd (snd (check_valid_mx_records s w))"
  using domain_cong [of s' s]
  by (auto simp: check_valid_mx_records_eq split: option.splits prod.splits sum.splits)

lemma domain_without_at: "CHR ''@'' \<notin> set (email s) \<Longrightarrow> domain s = None"
  by (simp add: domain_def py_split_single)

lemma validate_without_at:
  assumes "CHR ''@'' \<notin> set e"
  shows "fst (validate j (init e g) w) =
           [\<lparr>severity = 10, message = ''Invalid email address.''\<rparr>, no_mx_error]"
proof -
  have "domain (init e g) = None"
    using assms by (simp add: domain_without_at init_fields)
  moreover have "check_valid_email_string (init e g) =
      [\<lparr>severity = 10, message = ''Invalid email address.''\<rparr>]"
    using assms by (simp add: check_valid_email_string_no_at init_fields)
  ultimately show ?thesis
    by (simp add: validate_result check_valid_mx_records_eq init_fields)
qed

lemma validate_again_result:
  "fst (validate_again j s w) =
     fst (validate j s w) @ drop (length (errors s)) (fst (validate j s w))"
proof -
  let ?s1 = "fst (snd (validate j s w))"
  have e: "email ?s1 = email s" and g: "use_gevent ?s1 = use_gevent s"
    and r: "errors ?s1 = fst (validate j s w)"
    by (simp_all add: validate_frame)
  have "fst (validate j ?s1 w) =
          fst (validate j s w) @ check_valid_email_string s @
          (if use_gevent s \<and> requests (snd (snd (check_valid_mx_records s w))) \<noteq> requests w \<and> \<not> j
           then [] else fst (check_valid_mx_records s w))"
    using check_valid_mx_records_cong [OF e, of w] check_valid_email_string_cong [OF e]
    by (simp add: validate_result [of j ?s1 w] g r)
  moreover have "drop (length (errors s)) (fst (validate j s w)) =
          check_valid_email_string s @
          (if use_gevent s \<and> requests (snd (snd (check_valid_mx_records s w))) \<noteq> requests w \<and> \<not> j
           then [] else fst (check_valid_mx_records s w))"
    by (simp add: validate_result [of j s w])
  ultimately show ?thesis by (simp add: validate_again_def)
qed

lemma run_checks_checks:
  "fst (run_checks checks s w) = map (\<lambda>c. fst (c s w)) checks"
  by (simp add: checks_eq split: prod.splits)

lemma results_of_checks:
  "map (\<lambda>c. fst (c s w)) checks =
     [check_nothing s, check_valid_email_string s, fst (check_valid_mx_records s w)]"
  by (simp add: checks_eq)

lemma sorted_check_names: "sorted check_names"
  unfolding check_names_eq by code_simp

section \<open>The claims\<close>

subsection \<open>The properties \<open>username\<close> and \<open>domain\<close>\<close>

text \<open>
  Claim C6, as it holds. Let \<open>u\<close> be the part of the email before its first \<open>@\<close> and
  \<open>v\<close> the part after it. Then \<open>username\<close> is \<open>u\<close>, and \<open>domain\<close> is \<open>v\<close> up to the
  next \<open>@\<close> of \<open>v\<close>: the second field of the split, which is all of \<open>v\<close> when the email
  holds one \<open>@\<close> only. Without any \<open>@\<close> the username is the whole email, and \<open>domain\<close>
  is \<open>None\<close> in that case and in no other.
\<close>

theorem username_domain_fields:
  "(CHR ''@'' \<notin> set (email s) \<longrightarrow> username s = email s \<and> domain s = None) \<and>
   (email s = u @ CHR ''@'' # v \<and> CHR ''@'' \<notin> set u \<longrightarrow>
      username s = u \<and>
      domain s = Some (takeWhile (\<lambda>c. c \<noteq> CHR ''@'') v) \<and>
      (CHR ''@'' \<notin> set v \<longrightarrow> domain s = Some v)) \<and>
   (domain s = None \<longleftrightarrow> CHR ''@'' \<notin> set (email s))"
proof (intro conjI impI)
  assume "CHR ''@'' \<notin> set (email s)"
  then show "username s = email s" by (auto simp: username_eq)
next
  assume "CHR ''@'' \<notin> set (email s)"
  then show "domain s = None" by (simp add: domain_eq)
next
  assume h: "email s = u @ CHR ''@'' # v \<and> CHR ''@'' \<notin> set u"
  then show "username s = u" using first_at(1) [of "email s" u v] by (simp add: username_eq)
next
  assume h: "email s = u @ CHR ''@'' # v \<and> CHR ''@'' \<notin> set u"
  then show "domain s = Some (takeWhile (\<lambda>c. c \<noteq> CHR ''@'') v)"
    using first_at(2) [of "email s" u v] by (simp add: domain_eq)
next
  assume h: "email s = u @ CHR ''@'' # v \<and> CHR ''@'' \<notin> set u" and "CHR ''@'' \<notin> set v"
  then show "domain s = Some v"
    using first_at(2) [of "email s" u v] by (auto simp: domain_eq)
next
  show "domain s = None \<longleftrightarrow> CHR ''@'' \<notin> set (email s)" by (simp add: domain_eq)
qed

text \<open>
  Claim C6 as stated takes the domain to be everything after the first \<open>@\<close>. For
  \<open>a@b@c\<close> the part after the first \<open>@\<close> is \<open>b@c\<close>, and \<open>domain\<close> is \<open>b\<close>.
\<close>

theorem domain_second_field_counterexample:
  "domain (init ''a@b@c'' False) = Some ''b'' \<and>
   tl (dropWhile (\<lambda>c. c \<noteq> CHR ''@'') ''a@b@c'') = ''b@c'' \<and>
   domain (init ''a@b@c'' False) \<noteq> Some ''b@c''"
  by (simp add: domain_def init_def)

theorem username_domain_fields_witness:
  "username (init ''a@b@c'' False) = ''a'' \<and> domain (init ''a@b@c'' False) = Some ''b'' \<and>
   username (init ''bob@example.com'' False) = ''bob'' \<and>
   domain (init ''bob@example.com'' False) = Some ''example.com'' \<and>
   username (init ''bob'' False) = ''bob'' \<and> domain (init ''bob'' False) = None"
  using username_domain_fields [of "init ''a@b@c'' False" "''a''" "''b@c''"]
    username_domain_fields [of "init ''bob@example.com'' False" "''bob''" "''example.com''"]
    username_domain_fields [of "init ''bob'' False" "[]" "[]"]
  by (simp add: init_def)

subsection \<open>The syntax check and the end of the string\<close>

text \<open>
  Claim C2 says that a string accepted by the syntax check and extended by one character
  is accepted only if the extended string is itself an addr-spec. The comment above
  \<open>VALID_ADDRESS_REGEXP\<close> says the same: a valid address matches exactly the addr-spec.
  The pattern ends with \<open>$\<close>, which also holds before a final newline, so the check
  accepts \<open>a@b.c\<close> followed by a newline, which is not an addr-spec.
\<close>

theorem trailing_newline_accepted:
  "check_valid_email_string (init ''a@b.c'' False) = [] \<and>
   ''a@b.c'' \<in> lang ADDR_SPEC \<and>
   check_valid_email_string (init (''a@b.c'' @ [CHR 0x0A]) False) = [] \<and>
   ''a@b.c'' @ [CHR 0x0A] \<notin> lang ADDR_SPEC"
proof -
  have a: "matches ADDR_SPEC ''a@b.c''" by code_simp
  have b: "\<not> matches ADDR_SPEC (''a@b.c'' @ [CHR 0x0A])" by code_simp
  have c: "re_match_anchored VALID_ADDRESS_REGEXP ''a@b.c''"
    using a by (simp add: re_match_anchored_def VALID_ADDRESS_REGEXP_def)
  have d: "re_match_anchored VALID_ADDRESS_REGEXP (''a@b.c'' @ [CHR 0x0A])"
    using a by (simp add: re_match_anchored_def VALID_ADDRESS_REGEXP_def newline_def)
  from a b c d show ?thesis
    by (simp add: check_valid_email_string_def init_def matches_lang)
qed

subsection \<open>The input \<open>not-an-email\<close>\<close>

text \<open>
  Claim C8: for the input \<open>not-an-email\<close>, in either mode and whatever the resolver
  would answer, \<open>validate\<close> returns the error of the syntax check (severity 10, message
  \<open>Invalid email address.\<close>) followed by the error of the MX check (severity 7), and
  nothing else.
\<close>

theorem validate_not_an_email:
  "fst (validate in_time (init ''not-an-email'' g) w) =
     [\<lparr>severity = 10, message = ''Invalid email address.''\<rparr>,
      \<lparr>severity = 7, message = ''No MX records found for the domain.''\<rparr>]"
proof -
  let ?s = "init ''not-an-email'' g"
  have d: "domain ?s = None" by (simp add: domain_def init_def)
  have m: "check_valid_mx_records ?s w = ([no_mx_error], ?s, w)"
    by (simp add: check_valid_mx_records_eq d)
  have e: "check_valid_email_string ?s = [\<lparr>severity = 10, message = ''Invalid email address.''\<rparr>]"
    by (rule check_valid_email_string_no_at) (simp add: init_def)
  have z: "errors ?s = []" by (simp add: init_def)
  show ?thesis
    by (simp add: validate_eq m e z no_mx_error_def)
qed

theorem validate_not_an_email_witness:
  "fst (validate True (init ''not-an-email'' False) failing) =
     [\<lparr>severity = 10, message = ''Invalid email address.''\<rparr>,
      \<lparr>severity = 7, message = ''No MX records found for the domain.''\<rparr>] \<and>
   fst (validate False (init ''not-an-email'' True) (answering [(10, ''mx1.example.com'')])) =
     [\<lparr>severity = 10, message = ''Invalid email address.''\<rparr>,
      \<lparr>severity = 7, message = ''No MX records found for the domain.''\<rparr>]"
  using validate_not_an_email [of True False failing]
    validate_not_an_email [of False True "answering [(10, ''mx1.example.com'')]"]
  by simp

subsection \<open>The MX lookup\<close>

text \<open>
  Claim C4. Let \<open>r1\<close> be the result of the first request and \<open>r2\<close> the result that a
  second request would get. The lookup sends the second request exactly when the first
  has the status \<open>NOERROR\<close>, no answers, and rotation is enabled (\<open>retry\<close>); it sends
  one request otherwise, and never a third. It fails, with a \<open>ServerError\<close> that carries
  the status and code of the result at hand, exactly when a request that it sent reports
  a status other than \<open>NOERROR\<close>. When it succeeds it returns the payloads of the last
  result, sorted in ascending order of (preference, exchanger): the same payloads, as
  many times each.
\<close>

theorem mxlookup_protocol:
  "let r1 = reply w (requests w) name ''mx'';
       r2 = reply w (Suc (requests w)) name ''mx'';
       retry = (status (header r1) = ''NOERROR'' \<and> answers r1 = [] \<and> server_rotate w);
       final = (if retry then r2 else r1)
   in (isl (fst (mxlookup name w)) \<longleftrightarrow>
         status (header r1) \<noteq> ''NOERROR'' \<or> (retry \<and> status (header r2) \<noteq> ''NOERROR'')) \<and>
      (isl (fst (mxlookup name w)) \<longrightarrow>
         fst (mxlookup name w) =
           Inl (ServerError (''DNS query status: '' @ status (header final)) (rcode (header final)))) \<and>
      requests (snd (mxlookup name w)) = requests w + (if retry then 2 else 1) \<and>
      (\<not> isl (fst (mxlookup name w)) \<longrightarrow>
         fst (mxlookup name w) = Inr (sort (map data (answers final))) \<and>
         sorted (projr (fst (mxlookup name w))) \<and>
         mset (projr (fst (mxlookup name w))) = mset (map data (answers final)))"
  by (auto simp: mxlookup_eq dnslookup_eq Let_def)

theorem mxlookup_protocol_witness:
  "fst (mxlookup ''example.com'' rotating) =
     Inr [(10, ''mx1.example.com''), (20, ''mx2.example.com'')] \<and>
   requests (snd (mxlookup ''example.com'' rotating)) = 2 \<and>
   fst (mxlookup ''example.com'' failing) = Inl (ServerError ''DNS query status: NXDOMAIN'' 3) \<and>
   requests (snd (mxlookup ''example.com'' failing)) = 1 \<and>
   fst (mxlookup ''example.com'' (answering [(10, ''mx1.example.com'')])) =
     Inr [(10, ''mx1.example.com'')] \<and>
   requests (snd (mxlookup ''example.com'' (answering [(10, ''mx1.example.com'')]))) = 1"
proof -
  have s: "sort [(20::int, ''mx2.example.com''), (10, ''mx1.example.com'')] =
           [(10, ''mx1.example.com''), (20, ''mx2.example.com'')]"
    by code_simp
  show ?thesis
    using mxlookup_protocol [of rotating "''example.com''"]
      mxlookup_protocol [of failing "''example.com''"]
      mxlookup_protocol [of "answering [(10, ''mx1.example.com'')]" "''example.com''"]
    by (simp add: rotating_def failing_def answering_def Let_def s)
qed


subsection \<open>The MX check\<close>

text \<open>
  Claim C3, as it holds. The error of the check has severity 7. When the domain is
  \<open>None\<close> or the empty string, the check returns that one error and does not call the
  lookup: the checker and the DNS state are unchanged. Otherwise it calls the lookup (at
  least one request is sent); a \<open>ServerError\<close> gives the one error and leaves the checker
  unchanged; an empty record list gives the one error, the empty list being stored in
  \<open>mx_records\<close>; a non-empty record list is stored in \<open>mx_records\<close> and the check
  returns no error.
\<close>

theorem check_valid_mx_records_outcomes:
  "severity no_mx_error = 7 \<and>
   (domain s = None \<or> domain s = Some [] \<longrightarrow>
      check_valid_mx_records s w = ([no_mx_error], s, w)) \<and>
   (domain s = Some d \<and> d \<noteq> [] \<longrightarrow>
      snd (snd (check_valid_mx_records s w)) = snd (mxlookup d w) \<and>
      requests w < requests (snd (snd (check_valid_mx_records s w))) \<and>
      (isl (fst (mxlookup d w)) \<longrightarrow>
         fst (check_valid_mx_records s w) = [no_mx_error] \<and>
         fst (snd (check_valid_mx_records s w)) = s) \<and>
      (fst (mxlookup d w) = Inr [] \<longrightarrow>
         fst (check_valid_mx_records s w) = [no_mx_error] \<and>
         fst (snd (check_valid_mx_records s w)) = s\<lparr>mx_records := Some []\<rparr>) \<and>
      (fst (mxlookup d w) = Inr l \<and> l \<noteq> [] \<longrightarrow>
         fst (check_valid_mx_records s w) = [] \<and>
         fst (snd (check_valid_mx_records s w)) = s\<lparr>mx_records := Some l\<rparr>))"
proof (intro conjI impI)
  show "severity no_mx_error = 7" by (simp add: no_mx_error_def)
next
  assume "domain s = None \<or> domain s = Some []"
  then show "check_valid_mx_records s w = ([no_mx_error], s, w)"
    by (auto simp: check_valid_mx_records_eq)
next
  assume h: "domain s = Some d \<and> d \<noteq> []"
  then show "snd (snd (check_valid_mx_records s w)) = snd (mxlookup d w)"
    by (auto simp: check_valid_mx_records_eq split: prod.splits sum.splits)
  with requests_mxlookup [of w d]
  show "requests w < requests (snd (snd (check_valid_mx_records s w)))" by simp
next
  assume "domain s = Some d \<and> d \<noteq> []" and "isl (fst (mxlookup d w))"
  then show "fst (check_valid_mx_records s w) = [no_mx_error]"
    and "fst (snd (check_valid_mx_records s w)) = s"
    by (auto simp: check_valid_mx_records_eq split: prod.splits sum.splits)
next
  assume "domain s = Some d \<and> d \<noteq> []" and "fst (mxlookup d w) = Inr []"
  then show "fst (check_valid_mx_records s w) = [no_mx_error]"
    and "fst (snd (check_valid_mx_records s w)) = s\<lparr>mx_records := Some []\<rparr>"
    by (auto simp: check_valid_mx_records_eq split: prod.splits sum.splits)
next
  assume "domain s = Some d \<and> d \<noteq> []" and "fst (mxlookup d w) = Inr l \<and> l \<noteq> []"
  then show "fst (check_valid_mx_records s w) = []"
    and "fst (snd (check_valid_mx_records s w)) = s\<lparr>mx_records := Some l\<rparr>"
    by (auto simp: check_valid_mx_records_eq split: prod.splits sum.splits)
qed

text \<open>
  Claim C3 as stated has the lookup called whenever the domain is not absent. For
  \<open>user@\<close> the domain is the empty string, not \<open>None\<close>. A lookup of it would
  return a record here, yet the check returns its error, stores nothing and sends no
  request.
\<close>

theorem empty_domain_no_lookup_counterexample:
  "domain (init ''user@'' False) = Some [] \<and>
   fst (mxlookup [] (answering [(10, ''mx1.example.com'')])) = Inr [(10, ''mx1.example.com'')] \<and>
   fst (check_valid_mx_records (init ''user@'' False) (answering [(10, ''mx1.example.com'')])) =
     [no_mx_error] \<and>
   mx_records (fst (snd (check_valid_mx_records (init ''user@'' False)
     (answering [(10, ''mx1.example.com'')])))) = None \<and>
   requests (snd (snd (check_valid_mx_records (init ''user@'' False)
     (answering [(10, ''mx1.example.com'')])))) = requests (answering [(10, ''mx1.example.com'')])"
  by (simp add: check_valid_mx_records_eq domain_examples mxlookup_answering init_fields)

theorem check_valid_mx_records_outcomes_witness:
  "fst (check_valid_mx_records (init ''not-an-email'' False) failing) = [no_mx_error] \<and>
   fst (check_valid_mx_records (init ''user@'' False) failing) = [no_mx_error] \<and>
   fst (check_valid_mx_records (init ''user@example.com'' False) failing) = [no_mx_error] \<and>
   mx_records (fst (snd (check_valid_mx_records (init ''user@example.com'' False) failing))) = None \<and>
   fst (check_valid_mx_records (init ''user@example.com'' False) (answering [])) = [no_mx_error] \<and>
   mx_records (fst (snd (check_valid_mx_records (init ''user@example.com'' False) (answering [])))) =
     Some [] \<and>
   fst (check_valid_mx_records (init ''user@example.com'' False)
     (answering [(10, ''mx1.example.com'')])) = [] \<and>
   mx_records (fst (snd (check_valid_mx_records (init ''user@example.com'' False)
     (answering [(10, ''mx1.example.com'')])))) = Some [(10, ''mx1.example.com'')]"
  using check_valid_mx_records_outcomes [of "init ''not-an-email'' False" failing "[]" "[]"]
    check_valid_mx_records_outcomes [of "init ''user@'' False" failing "[]" "[]"]
    check_valid_mx_records_outcomes [of "init ''user@example.com'' False" failing "''example.com''" "[]"]
    check_valid_mx_records_outcomes [of "init ''user@example.com'' False" "answering []" "''example.com''" "[]"]
    check_valid_mx_records_outcomes [of "init ''user@example.com'' False"
      "answering [(10, ''mx1.example.com'')]" "''example.com''" "[(10, ''mx1.example.com'')]"]
  by (simp add: domain_examples mxlookup_answering mxlookup_failing mxlookup_answering_Nil
      init_fields)

subsection \<open>Who writes \<open>mx_records\<close>\<close>

text \<open>
  Claim C7. \<open>mx_records\<close> is \<open>None\<close> after construction. The MX check leaves it as it
  was when the domain is absent or empty and when the lookup raises its error; whenever
  the check changes it, the lookup of a non-empty domain has returned a list, and that
  list is stored. The same holds of \<open>validate\<close>, which writes the field through the MX
  check only: a check of any other name leaves the checker as it was. The properties and
  \<open>didyoumean\<close> return no checker: they write nothing.
\<close>

theorem mx_records_written_by_successful_lookup_only:
  "mx_records (init e g) = None \<and>
   (domain s = None \<or> domain s = Some [] \<longrightarrow>
      mx_records (fst (snd (check_valid_mx_records s w))) = mx_records s) \<and>
   (domain s = Some d \<and> isl (fst (mxlookup d w)) \<longrightarrow>
      mx_records (fst (snd (check_valid_mx_records s w))) = mx_records s) \<and>
   (mx_records (fst (snd (check_valid_mx_records s w))) \<noteq> mx_records s \<longrightarrow>
      (\<exists>d' l. domain s = Some d' \<and> d' \<noteq> [] \<and> fst (mxlookup d' w) = Inr l \<and>
         mx_records (fst (snd (check_valid_mx_records s w))) = Some l)) \<and>
   (mx_records (fst (snd (validate j s w))) \<noteq> mx_records s \<longrightarrow>
      (\<exists>d' l. domain s = Some d' \<and> d' \<noteq> [] \<and> fst (mxlookup d' w) = Inr l \<and>
         mx_records (fst (snd (validate j s w))) = Some l)) \<and>
   (getattr name = Some c \<and> name \<noteq> ''check_valid_mx_records'' \<longrightarrow>
      fst (snd (c s w)) = s)"
proof (intro conjI impI)
  show "mx_records (init e g) = None" by (simp add: init_fields)
next
  assume "domain s = None \<or> domain s = Some []"
  then show "mx_records (fst (snd (check_valid_mx_records s w))) = mx_records s"
    by (auto simp: check_valid_mx_records_eq)
next
  assume "domain s = Some d \<and> isl (fst (mxlookup d w))"
  then show "mx_records (fst (snd (check_valid_mx_records s w))) = mx_records s"
    by (auto simp: check_valid_mx_records_eq split: prod.splits sum.splits)
next
  assume "mx_records (fst (snd (check_valid_mx_records s w))) \<noteq> mx_records s"
  then show "\<exists>d' l. domain s = Some d' \<and> d' \<noteq> [] \<and> fst (mxlookup d' w) = Inr l \<and>
         mx_records (fst (snd (check_valid_mx_records s w))) = Some l"
    by (auto simp: check_valid_mx_records_eq split: option.splits prod.splits sum.splits if_splits)
next
  assume a: "mx_records (fst (snd (validate j s w))) \<noteq> mx_records s"
  then have b: "mx_records (fst (snd (validate j s w))) =
      mx_records (fst (snd (check_valid_mx_records s w)))"
    by (simp add: validate_state split: if_splits)
  with a have "mx_records (fst (snd (check_valid_mx_records s w))) \<noteq> mx_records s" by simp
  then have "\<exists>d' l. domain s = Some d' \<and> d' \<noteq> [] \<and> fst (mxlookup d' w) = Inr l \<and>
         mx_records (fst (snd (check_valid_mx_records s w))) = Some l"
    by (auto simp: check_valid_mx_records_eq split: option.splits prod.splits sum.splits if_splits)
  with b show "\<exists>d' l. domain s = Some d' \<and> d' \<noteq> [] \<and> fst (mxlookup d' w) = Inr l \<and>
         mx_records (fst (snd (validate j s w))) = Some l"
    by simp
next
  assume "getattr name = Some c \<and> name \<noteq> ''check_valid_mx_records''"
  then show "fst (snd (c s w)) = s"
    by (auto simp: getattr_def split: if_splits)
qed

theorem mx_records_written_by_successful_lookup_only_witness:
  "mx_records (init ''user@example.com'' False) = None \<and>
   mx_records (fst (snd (check_valid_mx_records (init ''user@'' False)
     (answering [(10, ''mx1.example.com'')])))) = None \<and>
   mx_records (fst (snd (check_valid_mx_records (init ''not-an-email'' False)
     (answering [(10, ''mx1.example.com'')])))) = None \<and>
   mx_records (fst (snd (check_valid_mx_records (init ''user@example.com'' False) failing))) = None \<and>
   mx_records (fst (snd (validate True (init ''user@example.com'' False) failing))) = None \<and>
   mx_records (fst (snd (check_valid_mx_records (init ''user@example.com'' False)
     (answering [(10, ''mx1.example.com'')])))) = Some [(10, ''mx1.example.com'')] \<and>
   fst (mxlookup ''example.com'' (answering [(10, ''mx1.example.com'')])) =
     Inr [(10, ''mx1.example.com'')]"
proof -
  have ok: "mx_records (fst (snd (check_valid_mx_records (init ''user@example.com'' False)
     (answering [(10, ''mx1.example.com'')])))) = Some [(10, ''mx1.example.com'')]"
    using mxlookup_answering [of "''example.com''"]
    by (auto simp: check_valid_mx_records_eq domain_examples split: prod.splits sum.splits)
  show ?thesis
    using mx_records_written_by_successful_lookup_only
        [of "''user@example.com''" False "init ''user@'' False"
          "answering [(10, ''mx1.example.com'')]" "[]" True]
      mx_records_written_by_successful_lookup_only
        [of "''user@example.com''" False "init ''not-an-email'' False"
          "answering [(10, ''mx1.example.com'')]" "[]" True]
      mx_records_written_by_successful_lookup_only
        [of "''user@example.com''" False "init ''user@example.com'' False" failing
          "''example.com''" True]
      mx_records_written_by_successful_lookup_only
        [of "''user@example.com''" False "init ''user@example.com'' False"
          "answering [(10, ''mx1.example.com'')]" "''example.com''" True
          "''check_nothing''" "\<lambda>s w. (check_nothing s, s, w)"]
      ok
    by (auto simp: domain_examples mxlookup_failing mxlookup_answering init_fields)
qed

subsection \<open>Calling \<open>validate\<close> twice\<close>

text \<open>
  Claim C1, as it holds. \<open>validate\<close> appends to \<open>self.errors\<close> and never empties it,
  so a second call returns the list of the first call followed by the errors of the
  second run, which are the errors of the first run once more when the resolver answers
  alike. The two lists hold the same errors as sets; for a new checker the second list is
  the first one twice, and the two are equal only when the run finds no error. (Both
  calls return the one list object \<open>self.errors\<close>; the lists compared here are its
  contents at each return.)
\<close>

theorem validate_again_appends:
  "fst (validate_again j s w) =
     fst (validate j s w) @ drop (length (errors s)) (fst (validate j s w)) \<and>
   set (fst (validate_again j s w)) = set (fst (validate j s w)) \<and>
   fst (validate_again j (init e g) w) = fst (validate j (init e g) w) @ fst (validate j (init e g) w) \<and>
   (fst (validate_again j (init e g) w) = fst (validate j (init e g) w) \<longleftrightarrow>
      fst (validate j (init e g) w) = [])"
proof -
  have "set (drop (length (errors s)) (fst (validate j s w))) \<subseteq> set (fst (validate j s w))"
    by (rule set_drop_subset)
  then have sets: "set (fst (validate_again j s w)) = set (fst (validate j s w))"
    by (auto simp: validate_again_result)
  have fresh:
    "fst (validate_again j (init e g) w) = fst (validate j (init e g) w) @ fst (validate j (init e g) w)"
    by (simp add: validate_again_result init_fields)
  from sets fresh show ?thesis by (simp add: validate_again_result)
qed

text \<open>
  Claim C1 as stated has the second call return the list of the first. For
  \<open>not-an-email\<close> the first call returns two errors and the second call four.
\<close>

theorem validate_again_longer_counterexample:
  "fst (validate True (init ''not-an-email'' False) failing) =
     [\<lparr>severity = 10, message = ''Invalid email address.''\<rparr>, no_mx_error] \<and>
   fst (validate_again True (init ''not-an-email'' False) failing) =
     [\<lparr>severity = 10, message = ''Invalid email address.''\<rparr>, no_mx_error,
      \<lparr>severity = 10, message = ''Invalid email address.''\<rparr>, no_mx_error] \<and>
   fst (validate_again True (init ''not-an-email'' False) failing) \<noteq>
   fst (validate True (init ''not-an-email'' False) failing)"
  by (simp add: validate_again_result validate_without_at init_fields)

theorem validate_again_appends_witness:
  "set (fst (validate_again True (init ''not-an-email'' False) failing)) =
     {\<lparr>severity = 10, message = ''Invalid email address.''\<rparr>, no_mx_error} \<and>
   length (fst (validate_again True (init ''not-an-email'' False) failing)) = 4 \<and>
   fst (validate_again True (init ''user@example.com'' True) (answering [(10, ''mx1.example.com'')])) = []"
proof -
  have a: "fst (validate True (init ''not-an-email'' False) failing) =
     [\<lparr>severity = 10, message = ''Invalid email address.''\<rparr>, no_mx_error]"
    by (simp add: validate_without_at)
  have "re_match_anchored VALID_ADDRESS_REGEXP ''user@example.com''"
    by code_simp
  then have b: "fst (validate True (init ''user@example.com'' True) (answering [(10, ''mx1.example.com'')])) = []"
    using mxlookup_answering [of "''example.com''"]
    by (auto simp: validate_result check_valid_mx_records_eq domain_examples init_fields
        check_valid_email_string_def split: prod.splits sum.splits)
  show ?thesis
    using validate_again_appends [of True "init ''not-an-email'' False" failing "''not-an-email''" False]
      validate_again_appends [of True "init ''not-an-email'' False"
        "answering [(10, ''mx1.example.com'')]" "''user@example.com''" True]
    by (auto simp: a b init_fields)
qed

subsection \<open>The result of \<open>validate\<close> in sequential mode\<close>

text \<open>
  Claim C5, as it holds. Without gevent, running the discovered checks one after the
  other gives each check's own list (the checks before the MX check change nothing), and
  \<open>validate\<close> returns the errors already on the checker followed by the concatenation
  of these lists in the order of discovery. For a checker as constructed, whose
  \<open>errors\<close> is empty, the result is exactly that concatenation, and its length is the
  sum of the lengths of the lists of the checks.
\<close>

theorem validate_sequential_concat:
  "(\<not> use_gevent s \<longrightarrow>
      fst (run_checks checks s w) = map (\<lambda>c. fst (c s w)) checks \<and>
      fst (validate j s w) = errors s @ concat (map (\<lambda>c. fst (c s w)) checks)) \<and>
   map (\<lambda>c. fst (c s w)) checks =
     [check_nothing s, check_valid_email_string s, fst (check_valid_mx_records s w)] \<and>
   fst (validate j (init e False) w) = concat (map (\<lambda>c. fst (c (init e False) w)) checks) \<and>
   length (fst (validate j (init e False) w)) =
     sum_list (map (\<lambda>c. length (fst (c (init e False) w))) checks)"
proof -
  have seq: "fst (validate j t w) = errors t @ concat (map (\<lambda>c. fst (c t w)) checks)"
    if "\<not> use_gevent t" for t
    using that by (simp add: validate_result results_of_checks check_nothing_def)
  have fresh: "fst (validate j (init e False) w) = concat (map (\<lambda>c. fst (c (init e False) w)) checks)"
    using seq [of "init e False"] by (simp add: init_fields)
  have "length (concat (map (\<lambda>c. fst (c (init e False) w)) checks)) =
        sum_list (map (\<lambda>c. length (fst (c (init e False) w))) checks)"
    by (simp add: length_concat comp_def)
  with fresh seq [of s] show ?thesis
    by (simp add: run_checks_checks results_of_checks)
qed

text \<open>
  Claim C5 as stated has every checker's result be the concatenation alone, as long as the
  lists of the checks together. The checker that a first call of \<open>validate\<close> on
  \<open>not-an-email\<close> has left holds two errors; on it, without gevent, the lists of the
  checks hold two errors together and \<open>validate\<close> returns four.
\<close>

theorem validate_reused_checker_counterexample:
  "\<not> use_gevent (fst (snd (validate True (init ''not-an-email'' False) failing))) \<and>
   errors (fst (snd (validate True (init ''not-an-email'' False) failing))) =
     [\<lparr>severity = 10, message = ''Invalid email address.''\<rparr>, no_mx_error] \<and>
   map (\<lambda>c. fst (c (fst (snd (validate True (init ''not-an-email'' False) failing))) failing))
     checks =
     [[], [\<lparr>severity = 10, message = ''Invalid email address.''\<rparr>], [no_mx_error]] \<and>
   sum_list (map (\<lambda>c. length
     (fst (c (fst (snd (validate True (init ''not-an-email'' False) failing))) failing))) checks) = 2 \<and>
   length (fst (validate True
     (fst (snd (validate True (init ''not-an-email'' False) failing))) failing)) = 4 \<and>
   fst (validate True (fst (snd (validate True (init ''not-an-email'' False) failing))) failing) \<noteq>
     concat (map (\<lambda>c. fst (c (fst (snd (validate True (init ''not-an-email'' False) failing)))
       failing)) checks)"
proof -
  let ?s1 = "fst (snd (validate True (init ''not-an-email'' False) failing))"
  let ?e10 = "\<lparr>severity = 10, message = ''Invalid email address.''\<rparr>"
  have g: "\<not> use_gevent ?s1" by (simp add: validate_frame init_fields)
  have m: "email ?s1 = ''not-an-email''" by (simp add: validate_frame init_fields)
  have e: "errors ?s1 = [?e10, no_mx_error]"
    by (simp add: validate_frame validate_without_at)
  have n: "CHR ''@'' \<notin> set (email ?s1)" by (simp add: m)
  have syn: "check_valid_email_string ?s1 = [?e10]"
    using n by (rule check_valid_email_string_no_at)
  have mx: "fst (check_valid_mx_records ?s1 failing) = [no_mx_error]"
    using domain_without_at [OF n] by (simp add: check_valid_mx_records_eq)
  have rs: "map (\<lambda>c. fst (c ?s1 failing)) checks = [[], [?e10], [no_mx_error]]"
    by (simp add: results_of_checks syn mx check_nothing_def)
  have su: "sum_list (map (\<lambda>c. length (fst (c ?s1 failing))) checks) = 2"
    by (simp add: checks_eq syn mx check_nothing_def)
  have v: "fst (validate True ?s1 failing) = [?e10, no_mx_error, ?e10, no_mx_error]"
    using g by (simp add: validate_result e syn mx)
  from g e rs su v show ?thesis by simp
qed

theorem validate_sequential_concat_witness:
  "fst (validate True (init ''user@'' False) failing) =
     [] @ [\<lparr>severity = 10, message = ''Invalid email address.''\<rparr>] @ [no_mx_error] \<and>
   length (fst (validate True (init ''user@'' False) failing)) = 0 + 1 + 1 \<and>
   fst (validate True (fst (snd (validate True (init ''not-an-email'' False) failing))) failing) =
     [\<lparr>severity = 10, message = ''Invalid email address.''\<rparr>, no_mx_error] @
     [] @ [\<lparr>severity = 10, message = ''Invalid email address.''\<rparr>] @ [no_mx_error]"
proof -
  let ?s1 = "fst (snd (validate True (init ''not-an-email'' False) failing))"
  have "\<not> re_match_anchored VALID_ADDRESS_REGEXP ''user@''"
    by code_simp
  then have a: "check_valid_email_string (init ''user@'' False) =
      [\<lparr>severity = 10, message = ''Invalid email address.''\<rparr>]"
    by (simp add: check_valid_email_string_def init_fields)
  have b: "fst (check_valid_mx_records (init ''user@'' False) failing) = [no_mx_error]"
    by (simp add: check_valid_mx_records_eq domain_examples)
  have g: "\<not> use_gevent ?s1" by (simp add: validate_frame init_fields)
  have e: "errors ?s1 = [\<lparr>severity = 10, message = ''Invalid email address.''\<rparr>, no_mx_error]"
    by (simp add: validate_frame validate_without_at)
  have n: "CHR ''@'' \<notin> set (email ?s1)" by (simp add: validate_frame init_fields)
  have syn: "check_valid_email_string ?s1 =
      [\<lparr>severity = 10, message = ''Invalid email address.''\<rparr>]"
    using n by (rule check_valid_email_string_no_at)
  have mx: "fst (check_valid_mx_records ?s1 failing) = [no_mx_error]"
    using domain_without_at [OF n] by (simp add: check_valid_mx_records_eq)
  show ?thesis
    using validate_sequential_concat [of "init ''user@'' False" failing True "''user@''"]
      validate_sequential_concat [of ?s1 failing True "''user@''"]
    by (simp add: a b g e syn mx check_nothing_def init_fields)
qed

subsection \<open>\<open>didyoumean\<close>\<close>

text \<open>
  Claim C9. For a checker whose domain is a non-empty string \<open>d\<close> and any function
  \<open>correct\<close>, the suggestion is the username, an \<open>@\<close>, and the images under
  \<open>correct\<close> of the labels of \<open>d\<close> (its fields between the dots) joined by dots;
  \<open>didyoumean\<close> returns \<open>None\<close> when that string is the email and the string otherwise.
  When the domain is \<open>None\<close> or empty it returns \<open>None\<close>.
\<close>

theorem didyoumean_suggestion:
  "(domain s = Some d \<and> d \<noteq> [] \<longrightarrow>
      didyoumean correct s =
        (if username s @ ''@'' @ py_join ''.'' (map correct (py_split (CHR ''.'') d)) = email s
         then None
         else Some (username s @ ''@'' @ py_join ''.'' (map correct (py_split (CHR ''.'') d))))) \<and>
   (domain s = None \<or> domain s = Some [] \<longrightarrow> didyoumean correct s = None)"
  by (auto simp: didyoumean_def Let_def)

theorem didyoumean_suggestion_witness:
  "didyoumean (\<lambda>l. if l = ''gnail'' then ''gmail'' else l) (init ''bob@gnail.com'' False) =
     Some ''bob@gmail.com'' \<and>
   didyoumean (\<lambda>l. l) (init ''bob@gnail.com'' False) = None \<and>
   didyoumean (\<lambda>l. ''x'') (init ''bob@'' False) = None \<and>
   didyoumean (\<lambda>l. ''x'') (init ''bob'' False) = None"
proof -
  have d: "domain (init ''bob@gnail.com'' False) = Some ''gnail.com''"
    "domain (init ''bob@'' False) = Some []" "domain (init ''bob'' False) = None"
    by (simp_all add: domain_def init_def)
  have u: "username (init ''bob@gnail.com'' False) = ''bob''"
    by (simp add: username_def init_def)
  show ?thesis
    using didyoumean_suggestion [of "init ''bob@gnail.com'' False" "''gnail.com''"
        "\<lambda>l. if l = ''gnail'' then ''gmail'' else l"]
      didyoumean_suggestion [of "init ''bob@gnail.com'' False" "''gnail.com''" "\<lambda>l. l"]
      didyoumean_suggestion [of "init ''bob@'' False" "[]" "\<lambda>l. ''x''"]
      didyoumean_suggestion [of "init ''bob'' False" "[]" "\<lambda>l. ''x''"]
    by (simp add: d u init_fields)
qed

subsection \<open>The order of the errors\<close>

text \<open>
  Claim C10. The names of the checks come out of \<open>dir\<close> in ascending order:
  \<open>check_nothing\<close>, \<open>check_valid_email_string\<close>, \<open>check_valid_mx_records\<close>, and
  \<open>checks\<close> holds the three methods in this order. In the
  list that \<open>validate\<close> returns for a new checker, in either mode, an error of severity
  10 stands before every error of severity 7; when the error of the syntax check and the
  error of the MX check are both present, the list is these two in this order.
\<close>

theorem syntax_error_before_mx_error:
  "check_names = [''check_nothing'', ''check_valid_email_string'', ''check_valid_mx_records''] \<and>
   sorted check_names \<and>
   checks = [(\<lambda>s w. (check_nothing s, s, w)), (\<lambda>s w. (check_valid_email_string s, s, w)),
             check_valid_mx_records] \<and>
   (i < length (fst (validate j (init e g) w)) \<and> k < length (fst (validate j (init e g) w)) \<and>
    severity (fst (validate j (init e g) w) ! i) = 10 \<and>
    severity (fst (validate j (init e g) w) ! k) = 7 \<longrightarrow> i < k) \<and>
   (\<lparr>severity = 10, message = ''Invalid email address.''\<rparr> \<in> set (fst (validate j (init e g) w)) \<and>
    no_mx_error \<in> set (fst (validate j (init e g) w)) \<longrightarrow>
      fst (validate j (init e g) w) =
        [\<lparr>severity = 10, message = ''Invalid email address.''\<rparr>, no_mx_error])"
proof -
  let ?res = "fst (validate j (init e g) w)"
  let ?e10 = "\<lparr>severity = 10, message = ''Invalid email address.''\<rparr>"
  obtain syn mxe where res: "?res = syn @ mxe"
    and syn: "syn = [] \<or> syn = [?e10]" and mxe: "mxe = [] \<or> mxe = [no_mx_error]"
    using check_valid_email_string_cases [of "init e g"]
      fst_check_valid_mx_records_cases [of "init e g" w]
    by (auto simp: validate_result init_fields)
  have order: "i < k"
    if "i < length ?res" "k < length ?res" "severity (?res ! i) = 10" "severity (?res ! k) = 7"
    using that syn mxe unfolding res
    by (auto simp: no_mx_error_def nth_Cons less_Suc_eq split: nat.splits)
  have both: "?res = [?e10, no_mx_error]" if "?e10 \<in> set ?res" "no_mx_error \<in> set ?res"
    using that syn mxe unfolding res by (auto simp: no_mx_error_def)
  from order both check_names_eq sorted_check_names checks_eq show ?thesis
    by blast
qed

theorem syntax_error_before_mx_error_witness:
  "fst (validate False (init ''user@'' True) failing) =
     [\<lparr>severity = 10, message = ''Invalid email address.''\<rparr>, no_mx_error] \<and>
   severity (fst (validate False (init ''user@'' True) failing) ! 0) = 10 \<and>
   severity (fst (validate False (init ''user@'' True) failing) ! 1) = 7 \<and> (0::nat) < 1"
proof -
  have "\<not> re_match_anchored VALID_ADDRESS_REGEXP ''user@''"
    by code_simp
  then have a: "check_valid_email_string (init ''user@'' True) =
      [\<lparr>severity = 10, message = ''Invalid email address.''\<rparr>]"
    by (simp add: check_valid_email_string_def init_fields)
  have b: "check_valid_mx_records (init ''user@'' True) failing =
      ([no_mx_error], init ''user@'' True, failing)"
    by (simp add: check_valid_mx_records_eq domain_examples)
  have r: "fst (validate False (init ''user@'' True) failing) =
     [\<lparr>severity = 10, message = ''Invalid email address.''\<rparr>, no_mx_error]"
    by (simp add: validate_result a b init_fields)
  show ?thesis
    using syntax_error_before_mx_error [of 0 False "''user@''" True failing 1]
    by (simp add: r no_mx_error_def)
qed


end
